theory Spec2Isabelle
  imports Main
begin

section \<open>The visit counter service of src/index.ts\<close>

text \<open>
  The service keeps one counter in a MongoDB collection (model \<open>Visit\<close>), mirrors it in
  an in-memory cache (\<open>visitCache\<close>, a NodeCache with \<open>stdTTL: 600\<close>) and serves it
  over HTTP. The two functions with logic of their own are \<open>initializeDatabase\<close>
  (lines 65-75) and \<open>updateVisitCount\<close> (lines 116-130); the routes \<open>/readiness\<close>
  (lines 106-113) and \<open>/api/visit\<close> (lines 133-139) and the error middleware (lines
  142-145) turn their results into responses.

  Shape of the model:
  \<^item> the process-wide store and cache are a record \<open>world\<close>, passed in and returned;
  \<^item> the collection is the list of its documents in natural order: \<open>findOne()\<close> with
    no filter answers the first one, \<open>save()\<close> on a fetched document rewrites that
    document in place, \<open>save()\<close> on a fresh document and \<open>create\<close> append one;
  \<^item> \<open>count\<close> is a JavaScript number (an IEEE-754 double) holding an integer; it is an
    \<open>int\<close> here, and \<open>+=\<close> is the double addition \<open>js_add\<close>: the exact sum rounded to
    53 significant bits, ties to even;
  \<^item> a rejected store call is a value \<open>Inl err\<close>; whether a call is rejected is decided
    by the surroundings, so it is an input (\<open>env\<close>), as are the clock readings the
    cache takes; a rejected write leaves the collection as it was;
  \<^item> every call issued to the store or the cache is recorded in a list of \<open>effect\<close>s,
    so that "no store read" and "no cache write" are statements about that list;
  \<^item> \<open>initializeDatabase\<close> and \<open>updateVisitCount\<close> are first given as whole calls, run
    one after another; both suspend at each \<open>await\<close>, so they are also given as tasks
    that are resumed one stretch at a time, which lets calls overlap;
  \<^item> the logger is left out (it touches neither the store, the cache nor a response).
\<close>

subsection \<open>JavaScript numbers\<close>

text \<open>
  A double has 53 significant bits. For a magnitude \<open>m\<close>, \<open>2 ^ expo m\<close> is the distance
  between neighbouring doubles around \<open>m\<close> (1 below \<open>2^53\<close>, doubling with every further
  bit), and \<open>round_nat m\<close> is the multiple of it nearest to \<open>m\<close>, the one with the even
  quotient when \<open>m\<close> lies half way. Adding 1 to an integer never overflows, so infinities and
  NaN do not arise.
\<close>

definition precision :: nat where
  "precision = 53"

function expo :: "nat \<Rightarrow> nat" where
  "expo m = (if m < 2 ^ precision then 0 else Suc (expo (m div 2)))"
  by pat_completeness auto
termination
proof (relation "measure id")
  show "wf (measure id)" by simp
next
  fix m :: nat
  assume "\<not> m < 2 ^ precision"
  then have "0 < m" by (cases m) simp_all
  then show "(m div 2, m) \<in> measure id" by simp
qed

declare expo.simps [simp del]

definition round_nat :: "nat \<Rightarrow> nat" where
  "round_nat m =
     (let u = 2 ^ expo m; q = m div u; r = m mod u in
      if 2 * r < u then q * u
      else if u < 2 * r then (q + 1) * u
      else if even q then q * u else (q + 1) * u)"

definition round_double :: "int \<Rightarrow> int" where
  "round_double x = sgn x * int (round_nat (nat \<bar>x\<bar>))"

text \<open>\<open>a + b\<close> on numbers.\<close>

definition js_add :: "int \<Rightarrow> int \<Rightarrow> int" where
  "js_add a b = round_double (a + b)"

text \<open>The integers that are doubles: those that rounding leaves alone.\<close>

definition is_double :: "int \<Rightarrow> bool" where
  "is_double x = (round_double x = x)"

subsection \<open>Data\<close>

text \<open>\<open>interface IVisit extends Document { count: number }\<close>\<close>

record IVisit =
  count :: int

text \<open>A JavaScript \<open>Error\<close>; only its \<open>message\<close> is read (line 144).\<close>

datatype js_error = Error (message: string)

text \<open>
  The cache as section 4.2 of the specification describes NodeCache: a key holds a value and
  the absolute time (milliseconds) at which it expires; an entry written at time \<open>now\<close>
  lives for \<open>stdTTL\<close> seconds; reading is passive, a missing or expired key is absent.
  (NodeCache may drop an expired entry when it is read or swept; no read can tell a dropped
  entry from an expired one, so the model keeps the entry and \<open>cache_get\<close> changes
  nothing.)
\<close>

record entry =
  cached_value :: int
  expires_at :: nat

type_synonym node_cache = "string \<Rightarrow> entry option"

definition stdTTL :: nat where
  "stdTTL = 600"

definition cache_get :: "node_cache \<Rightarrow> string \<Rightarrow> nat \<Rightarrow> int option" where
  "cache_get c key now =
     (case c key of
        None \<Rightarrow> None
      | Some en \<Rightarrow> if expires_at en < now then None else Some (cached_value en))"

definition cache_set :: "node_cache \<Rightarrow> string \<Rightarrow> int \<Rightarrow> nat \<Rightarrow> node_cache" where
  "cache_set c key val now =
     c(key \<mapsto> \<lparr>cached_value = val, expires_at = now + stdTTL * 1000\<rparr>)"

record world =
  store :: "IVisit list"
  cache :: node_cache

text \<open>
  What the surroundings decide during one call: whether \<open>Visit.findOne()\<close>,
  \<open>visit.save()\<close> and \<open>Visit.create()\<close> are rejected (and with which error), and the
  clock when the cache is read and when it is written.
\<close>

record env =
  findOne_fault :: "js_error option"
  save_fault :: "js_error option"
  create_fault :: "js_error option"
  t_get :: nat
  t_set :: nat

datatype effect =
    CacheGet string
  | CacheSet string int
  | FindOne
  | Save int
  | Create int

record 'r outcome =
  result :: 'r
  world_after :: world
  effects :: "effect list"

subsection \<open>The store\<close>

definition findOne :: "env \<Rightarrow> IVisit list \<Rightarrow> js_error + IVisit option" where
  "findOne e docs =
     (case findOne_fault e of
        Some err \<Rightarrow> Inl err
      | None \<Rightarrow> (case docs of [] \<Rightarrow> Inr None | d # _ \<Rightarrow> Inr (Some d)))"

text \<open>
  \<open>visit.save()\<close>: a document made with \<open>new Visit(...)\<close> is inserted, the document
  \<open>findOne\<close> returned is updated where it stands.
\<close>

definition save :: "env \<Rightarrow> bool \<Rightarrow> IVisit \<Rightarrow> IVisit list \<Rightarrow> js_error + IVisit list" where
  "save e isNew visit docs =
     (case save_fault e of
        Some err \<Rightarrow> Inl err
      | None \<Rightarrow> Inr (if isNew then docs @ [visit] else visit # tl docs))"

definition create :: "env \<Rightarrow> IVisit \<Rightarrow> IVisit list \<Rightarrow> js_error + IVisit list" where
  "create e visit docs =
     (case create_fault e of
        Some err \<Rightarrow> Inl err
      | None \<Rightarrow> Inr (docs @ [visit]))"

subsection \<open>initializeDatabase (lines 65-75)\<close>

text \<open>
  \<^verbatim>\<open>
  try {
    const visit = await Visit.findOne();
    if (!visit) { await Visit.create({ count: 0 }); logger.info(...); }
  } catch (error) { logger.error(...); }
  \<close>
  The \<open>catch\<close> swallows every error, so the function always resolves.
\<close>

definition initializeDatabase :: "env \<Rightarrow> world \<Rightarrow> unit outcome" where
  "initializeDatabase e w =
     (case findOne e (store w) of
        Inl err \<Rightarrow> \<lparr>result = (), world_after = w, effects = [FindOne]\<rparr>
      | Inr (Some visit) \<Rightarrow> \<lparr>result = (), world_after = w, effects = [FindOne]\<rparr>
      | Inr None \<Rightarrow>
          (case create e \<lparr>count = 0\<rparr> (store w) of
             Inl err \<Rightarrow> \<lparr>result = (), world_after = w, effects = [FindOne, Create 0]\<rparr>
           | Inr docs \<Rightarrow>
               \<lparr>result = (), world_after = w\<lparr>store := docs\<rparr>,
                effects = [FindOne, Create 0]\<rparr>))"

subsection \<open>updateVisitCount (lines 116-130)\<close>

text \<open>\<open>!visitCount\<close> for \<open>number | undefined\<close>: \<open>undefined\<close> and \<open>0\<close> are falsy.\<close>

fun falsy :: "int option \<Rightarrow> bool" where
  "falsy None = True"
| "falsy (Some n) = (n = 0)"

text \<open>
  \<^verbatim>\<open>
  let visitCount = visitCache.get<number>("visitCount");
  if (!visitCount) {
    let visit = await Visit.findOne();
    if (!visit) { visit = new Visit({ count: 1 }); } else { visit.count += 1; }
    await visit.save();
    visitCache.set("visitCount", visit.count);
    visitCount = visit.count;
  }
  return visitCount;
  \<close>
\<close>

definition updateVisitCount :: "env \<Rightarrow> world \<Rightarrow> (js_error + int) outcome" where
  "updateVisitCount e w =
     (let visitCount = cache_get (cache w) ''visitCount'' (t_get e) in
      case (if falsy visitCount then None else visitCount) of
        None \<Rightarrow>
          (case findOne e (store w) of
             Inl err \<Rightarrow>
               \<lparr>result = Inl err, world_after = w,
                effects = [CacheGet ''visitCount'', FindOne]\<rparr>
           | Inr found \<Rightarrow>
               (let visit = (case found of
                               None \<Rightarrow> \<lparr>count = 1\<rparr>
                             | Some d \<Rightarrow> d\<lparr>count := js_add (count d) 1\<rparr>) in
                case save e (found = None) visit (store w) of
                  Inl err \<Rightarrow>
                    \<lparr>result = Inl err, world_after = w,
                     effects = [CacheGet ''visitCount'', FindOne, Save (count visit)]\<rparr>
                | Inr docs \<Rightarrow>
                    \<lparr>result = Inr (count visit),
                     world_after =
                       \<lparr>store = docs,
                        cache = cache_set (cache w) ''visitCount'' (count visit) (t_set e)\<rparr>,
                     effects = [CacheGet ''visitCount'', FindOne, Save (count visit),
                                CacheSet ''visitCount'' (count visit)]\<rparr>))
      | Some n \<Rightarrow>
          \<lparr>result = Inr n, world_after = w, effects = [CacheGet ''visitCount'']\<rparr>)"

subsection \<open>The HTTP layer\<close>

datatype json = JString string | JNumber int | JObject "(string \<times> json) list"

record response =
  status :: nat
  body :: json

text \<open>
  \<open>GET /readiness\<close> (lines 106-113) reads \<open>mongoose.connection.readyState\<close>, a number:
  mongoose numbers its connection states 0 disconnected, 1 connected, 2 connecting,
  3 disconnecting, 99 uninitialized.
\<close>

datatype connection_state = Disconnected | Connected | Connecting | Disconnecting | Uninitialized

fun readyState :: "connection_state \<Rightarrow> nat" where
  "readyState Disconnected = 0"
| "readyState Connected = 1"
| "readyState Connecting = 2"
| "readyState Disconnecting = 3"
| "readyState Uninitialized = 99"

definition readiness :: "nat \<Rightarrow> response" where
  "readiness mongoState =
     (if mongoState = 1
      then \<lparr>status = 200, body = JObject [(''status'', JString ''Ready'')]\<rparr>
      else \<lparr>status = 500, body = JObject [(''status'', JString ''Not Ready'')]\<rparr>)"

text \<open>
  The error middleware (lines 142-145):
  \<open>res.status(500).json({ error: err.message || "Internal Server Error" })\<close>;
  an empty message is falsy.
\<close>

definition error_middleware :: "js_error \<Rightarrow> response list" where
  "error_middleware err =
     [\<lparr>status = 500,
       body = JObject [(''error'',
                JString (if message err = [] then ''Internal Server Error''
                         else message err))]\<rparr>]"

text \<open>
  The route body of \<open>/api/visit\<close> (lines 135-138): it either sends
  \<open>res.json({ visitCount })\<close> (status 200) or is rejected with the error of
  \<open>updateVisitCount\<close>, having sent nothing.
\<close>

definition visit_route :: "env \<Rightarrow> world \<Rightarrow> (js_error + response list) \<times> world" where
  "visit_route e w =
     (let out = updateVisitCount e w in
      (case result out of
         Inl err \<Rightarrow> Inl err
       | Inr visitCount \<Rightarrow>
           Inr [\<lparr>status = 200, body = JObject [(''visitCount'', JNumber visitCount)]\<rparr>],
       world_after out))"

text \<open>
  \<open>asyncHandler\<close> (lines 91-95): \<open>Promise.resolve(fn(req, res, next)).catch(next)\<close>.
  A rejection goes to \<open>next\<close>, which is the error middleware, the only error handler
  the application registers.
\<close>

definition asyncHandler :: "(js_error + response list) \<Rightarrow> response list" where
  "asyncHandler r = (case r of Inl err \<Rightarrow> error_middleware err | Inr sent \<Rightarrow> sent)"

text \<open>\<open>GET /api/visit\<close>: the responses the request receives and the world it leaves.\<close>

definition api_visit :: "env \<Rightarrow> world \<Rightarrow> response list \<times> world" where
  "api_visit e w = (let (r, w') = visit_route e w in (asyncHandler r, w'))"

subsection \<open>Sequences of operations\<close>





subsection \<open>Calls that overlap\<close>

text \<open>
  An \<open>async\<close> function runs until its next \<open>await\<close> and is resumed when the awaited
  store call has been answered; in between, other calls run. A task is a call at such a
  point, holding the local variable it has set so far; \<open>update_resume\<close> and
  \<open>init_resume\<close> run one stretch: up to and including the store call the function awaits
  next (the store performs that call at once), or to the end.

  \<open>updateVisitCount\<close>: the stretch from line 117 to \<open>findOne()\<close> in line 119, the stretch
  from there to \<open>save()\<close> in line 125, and the rest (lines 126-129).
\<close>

datatype update_task =
    UpdateStart
  | UpdateFound "IVisit option"
  | UpdateSaved IVisit
  | UpdateDone "js_error + int"

fun update_resume :: "env \<Rightarrow> update_task \<Rightarrow> world \<Rightarrow> update_task \<times> world" where
  "update_resume e UpdateStart w =
     (let visitCount = cache_get (cache w) ''visitCount'' (t_get e) in
      case (if falsy visitCount then None else visitCount) of
        None \<Rightarrow>
          (case findOne e (store w) of
             Inl err \<Rightarrow> (UpdateDone (Inl err), w)
           | Inr found \<Rightarrow> (UpdateFound found, w))
      | Some n \<Rightarrow> (UpdateDone (Inr n), w))"
| "update_resume e (UpdateFound found) w =
     (let visit = (case found of
                     None \<Rightarrow> \<lparr>count = 1\<rparr>
                   | Some d \<Rightarrow> d\<lparr>count := js_add (count d) 1\<rparr>) in
      case save e (found = None) visit (store w) of
        Inl err \<Rightarrow> (UpdateDone (Inl err), w)
      | Inr docs \<Rightarrow> (UpdateSaved visit, w\<lparr>store := docs\<rparr>))"
| "update_resume e (UpdateSaved visit) w =
     (UpdateDone (Inr (count visit)),
      w\<lparr>cache := cache_set (cache w) ''visitCount'' (count visit) (t_set e)\<rparr>)"
| "update_resume e (UpdateDone r) w = (UpdateDone r, w)"

text \<open>
  \<open>initializeDatabase\<close>: the stretch to \<open>findOne()\<close> in line 67, and the rest
  (\<open>create\<close> in line 69 when no record was found).
\<close>

datatype init_task =
    InitStart
  | InitFound "IVisit option"
  | InitDone

fun init_resume :: "env \<Rightarrow> init_task \<Rightarrow> world \<Rightarrow> init_task \<times> world" where
  "init_resume e InitStart w =
     (case findOne e (store w) of
        Inl err \<Rightarrow> (InitDone, w)
      | Inr found \<Rightarrow> (InitFound found, w))"
| "init_resume e (InitFound (Some visit)) w = (InitDone, w)"
| "init_resume e (InitFound None) w =
     (case create e \<lparr>count = 0\<rparr> (store w) of
        Inl err \<Rightarrow> (InitDone, w)
      | Inr docs \<Rightarrow> (InitDone, w\<lparr>store := docs\<rparr>))"
| "init_resume e InitDone w = (InitDone, w)"

text \<open>
  The calls in flight, and a schedule: the list of the positions of the calls that are
  resumed, in the order in which they are resumed.
\<close>

datatype call = InitCall env init_task | VisitCall env update_task

fun resume :: "call \<Rightarrow> world \<Rightarrow> call \<times> world" where
  "resume (InitCall e t) w = (let (t', w') = init_resume e t w in (InitCall e t', w'))"
| "resume (VisitCall e t) w = (let (t', w') = update_resume e t w in (VisitCall e t', w'))"

fun interleave :: "nat list \<Rightarrow> call list \<times> world \<Rightarrow> call list \<times> world" where
  "interleave [] s = s"
| "interleave (i # sched) (calls, w) =
     (if i < length calls
      then (let (c, w') = resume (calls ! i) w in interleave sched (calls[i := c], w'))
      else interleave sched (calls, w))"

subsection \<open>Concrete surroundings and worlds\<close>

text \<open>A call during which the store answers, and calls during which it does not.\<close>

definition store_up :: env where
  "store_up = \<lparr>findOne_fault = None, save_fault = None, create_fault = None,
                t_get = 1000, t_set = 1005\<rparr>"

definition store_down :: env where
  "store_down = \<lparr>findOne_fault = Some (Error ''connection refused''),
                  save_fault = Some (Error ''connection refused''),
                  create_fault = Some (Error ''connection refused''),
                  t_get = 1000, t_set = 1005\<rparr>"

definition write_down :: env where
  "write_down = \<lparr>findOne_fault = None, save_fault = Some (Error []),
                  create_fault = Some (Error []), t_get = 1000, t_set = 1005\<rparr>"

definition cached :: "int \<Rightarrow> nat \<Rightarrow> node_cache" where
  "cached n t = [''visitCount'' \<mapsto> \<lparr>cached_value = n, expires_at = t\<rparr>]"

subsection \<open>The data model's conditions on a world\<close>

text \<open>
  Section 3 of the specification: a persisted \<open>count\<close> is a non-negative integer
  (\<open>store_valid\<close>). \<open>counts_valid\<close> adds that the cached count, if there is one, is at
  least 1; it holds of the empty world and of every world the service reaches from it.
\<close>

definition store_valid :: "world \<Rightarrow> bool" where
  "store_valid w = list_all (\<lambda>d. 0 \<le> count d) (store w)"


section \<open>Properties\<close>

subsection \<open>Rounding to a double\<close>

lemma expo_small: "m < 2 ^ precision \<Longrightarrow> expo m = 0"
  by (simp add: expo.simps)

lemma expo_upper: "m < 2 ^ (precision + expo m)"
proof (induction m rule: expo.induct)
  case (1 m)
  show ?case
  proof (cases "m < 2 ^ precision")
    case True
    then show ?thesis by (simp add: expo_small)
  next
    case False
    then have e: "expo m = Suc (expo (m div 2))" by (subst expo.simps) simp
    from 1 [OF False] have "m div 2 < 2 ^ (precision + expo (m div 2))" .
    then have "m < 2 * 2 ^ (precision + expo (m div 2))" by simp
    then show ?thesis by (simp add: e)
  qed
qed

lemma expo_lower: "expo m = Suc k \<Longrightarrow> 2 ^ (precision + k) \<le> m"
proof (induction m arbitrary: k rule: expo.induct)
  case (1 m)
  show ?case
  proof (cases "m < 2 ^ precision")
    case True
    with "1.prems" show ?thesis by (simp add: expo_small)
  next
    case False
    then have e: "expo m = Suc (expo (m div 2))" by (subst expo.simps) simp
    with "1.prems" have k: "expo (m div 2) = k" by simp
    show ?thesis
    proof (cases k)
      case 0
      with False show ?thesis by simp
    next
      case (Suc j)
      with k have "expo (m div 2) = Suc j" by simp
      from "1.IH" [OF False this] have "2 ^ (precision + j) \<le> m div 2" .
      then have "2 * 2 ^ (precision + j) \<le> m" by simp
      with Suc show ?thesis by simp
    qed
  qed
qed

lemma expo_le: "m < 2 ^ (precision + k) \<Longrightarrow> expo m \<le> k"
proof (rule ccontr)
  assume m: "m < 2 ^ (precision + k)" and "\<not> expo m \<le> k"
  then obtain j where j: "expo m = Suc j" and "k \<le> j"
    by (cases "expo m") auto
  from expo_lower [OF j] have "2 ^ (precision + j) \<le> m" .
  moreover from \<open>k \<le> j\<close> have "(2::nat) ^ (precision + k) \<le> 2 ^ (precision + j)"
    by (simp add: power_increasing)
  ultimately show False using m by simp
qed

lemma expo_mono: "a \<le> b \<Longrightarrow> expo a \<le> expo b"
proof -
  assume "a \<le> b"
  also have "b < 2 ^ (precision + expo b)" by (rule expo_upper)
  finally show ?thesis by (rule expo_le)
qed

lemma floor_multiple: "(u::nat) dvd d \<Longrightarrow> d \<le> m \<Longrightarrow> d \<le> m div u * u"
proof -
  assume "u dvd d" and "d \<le> m"
  then obtain c where c: "d = u * c" by (elim dvdE)
  show ?thesis
  proof (cases "u = 0")
    case True
    with c show ?thesis by simp
  next
    case False
    from \<open>d \<le> m\<close> have "d div u \<le> m div u" by (rule div_le_mono)
    with False c have "c \<le> m div u" by simp
    then have "c * u \<le> m div u * u" by (rule mult_le_mono1)
    then show ?thesis by (simp add: c mult.commute)
  qed
qed

lemma next_multiple: "(u::nat) dvd d \<Longrightarrow> m div u * u < d \<Longrightarrow> (m div u + 1) * u \<le> d"
proof -
  assume "u dvd d" and lt: "m div u * u < d"
  then obtain c where c: "d = u * c" by (elim dvdE)
  from lt c have "m div u * u < c * u" by (simp add: mult.commute)
  then have "m div u < c" by simp
  then have "m div u + 1 \<le> c" by simp
  then have "(m div u + 1) * u \<le> c * u" by (rule mult_le_mono1)
  then show ?thesis by (simp add: c mult.commute)
qed

text \<open>Rounding goes to the multiple below or, only when there is a remainder, above.\<close>

lemma round_nat_cases:
  "round_nat m = m div 2 ^ expo m * 2 ^ expo m
   \<or> (round_nat m = (m div 2 ^ expo m + 1) * 2 ^ expo m \<and> m mod 2 ^ expo m \<noteq> 0)"
proof (cases "m mod 2 ^ expo m = 0")
  case True
  then show ?thesis by (simp add: round_nat_def Let_def)
next
  case False
  then show ?thesis by (auto simp: round_nat_def Let_def)
qed

lemma round_nat_floor: "m div 2 ^ expo m * 2 ^ expo m \<le> round_nat m"
  by (auto simp: round_nat_def Let_def)

lemma round_nat_exact: "2 ^ expo m dvd m \<Longrightarrow> round_nat m = m"
  by (auto simp: round_nat_def Let_def mod_eq_0_iff_dvd)

text \<open>Rounding never passes a double: one below \<open>m\<close> stays below, one above stays above.\<close>

lemma round_nat_lower:
  assumes d: "2 ^ expo d dvd d" and le: "d \<le> m"
  shows "d \<le> round_nat m"
proof -
  from le have "expo d \<le> expo m" by (rule expo_mono)
  show ?thesis
  proof (cases "expo d = expo m")
    case True
    with d have "2 ^ expo m dvd d" by simp
    from floor_multiple [OF this le] round_nat_floor [of m] show ?thesis by simp
  next
    case False
    with \<open>expo d \<le> expo m\<close> obtain k where k: "expo m = Suc k" and dk: "expo d \<le> k"
      by (cases "expo m") auto
    have "d < 2 ^ (precision + expo d)" by (rule expo_upper)
    also from dk have "(2::nat) ^ (precision + expo d) \<le> 2 ^ (precision + k)"
      by (simp add: power_increasing)
    finally have dlt: "d < 2 ^ (precision + k)" .
    from expo_lower [OF k] have low: "2 ^ (precision + k) \<le> m" .
    have "Suc k \<le> precision + k" by (simp add: precision_def)
    then have "(2::nat) ^ Suc k dvd 2 ^ (precision + k)" by (rule le_imp_power_dvd)
    with k have "(2::nat) ^ expo m dvd 2 ^ (precision + k)" by simp
    from floor_multiple [OF this low]
    have "2 ^ (precision + k) \<le> m div 2 ^ expo m * 2 ^ expo m" .
    with dlt round_nat_floor [of m] show ?thesis by simp
  qed
qed

lemma round_nat_upper:
  assumes d: "2 ^ expo d dvd d" and le: "m \<le> d"
  shows "round_nat m \<le> d"
proof -
  from round_nat_cases [of m] show ?thesis
  proof (elim disjE conjE)
    assume "round_nat m = m div 2 ^ expo m * 2 ^ expo m"
    moreover have "m div 2 ^ expo m * 2 ^ expo m \<le> m" by simp
    ultimately have "round_nat m \<le> m" by simp
    then show ?thesis using le by (rule order_trans)
  next
    assume r: "round_nat m = (m div 2 ^ expo m + 1) * 2 ^ expo m"
      and nz: "m mod 2 ^ expo m \<noteq> 0"
    from le have "expo m \<le> expo d" by (rule expo_mono)
    then have "(2::nat) ^ expo m dvd 2 ^ expo d" by (rule le_imp_power_dvd)
    from this d have dv: "2 ^ expo m dvd d" by (rule dvd_trans)
    have "m div 2 ^ expo m * 2 ^ expo m + m mod 2 ^ expo m = m"
      by (rule div_mult_mod_eq)
    with nz have "m div 2 ^ expo m * 2 ^ expo m < m" by linarith
    with le have "m div 2 ^ expo m * 2 ^ expo m < d" by simp
    from next_multiple [OF dv this] r show ?thesis by simp
  qed
qed

text \<open>The result of rounding is a double.\<close>

lemma round_nat_closed: "2 ^ expo (round_nat m) dvd round_nat m"
proof -
  from round_nat_cases [of m] show ?thesis
  proof (elim disjE conjE)
    assume r: "round_nat m = m div 2 ^ expo m * 2 ^ expo m"
    have "round_nat m \<le> m" unfolding r by simp
    then have "expo (round_nat m) \<le> expo m" by (rule expo_mono)
    then have "(2::nat) ^ expo (round_nat m) dvd 2 ^ expo m" by (rule le_imp_power_dvd)
    moreover have "(2::nat) ^ expo m dvd round_nat m" unfolding r by simp
    ultimately show ?thesis by (rule dvd_trans)
  next
    assume r: "round_nat m = (m div 2 ^ expo m + 1) * 2 ^ expo m"
      and nz: "m mod 2 ^ expo m \<noteq> 0"
    have um: "(2::nat) ^ expo m dvd round_nat m" unfolding r by simp
    have "m < 2 ^ (precision + expo m)" by (rule expo_upper)
    then have "m < 2 ^ precision * 2 ^ expo m" by (simp add: power_add)
    then have "m div 2 ^ expo m < 2 ^ precision"
      by (simp add: less_mult_imp_div_less)
    then have "m div 2 ^ expo m + 1 \<le> 2 ^ precision" by simp
    then have "(m div 2 ^ expo m + 1) * 2 ^ expo m \<le> 2 ^ precision * 2 ^ expo m"
      by (rule mult_le_mono1)
    then have ub: "round_nat m \<le> 2 ^ (precision + expo m)"
      by (simp add: r power_add)
    show ?thesis
    proof (cases "round_nat m < 2 ^ (precision + expo m)")
      case True
      then have "expo (round_nat m) \<le> expo m" by (rule expo_le)
      then have "(2::nat) ^ expo (round_nat m) dvd 2 ^ expo m" by (rule le_imp_power_dvd)
      then show ?thesis using um by (rule dvd_trans)
    next
      case False
      with ub have eq: "round_nat m = 2 ^ (precision + expo m)" by simp
      have "round_nat m < 2 ^ (precision + Suc (expo m))" by (simp add: eq)
      then have "expo (round_nat m) \<le> Suc (expo m)" by (rule expo_le)
      also have "Suc (expo m) \<le> precision + expo m" by (simp add: precision_def)
      finally have "(2::nat) ^ expo (round_nat m) dvd 2 ^ (precision + expo m)"
        by (rule le_imp_power_dvd)
      then show ?thesis by (simp add: eq)
    qed
  qed
qed

lemma round_nat_zero: "round_nat 0 = 0"
  by (simp add: round_nat_def)

lemma round_double_nonneg: "0 \<le> x \<Longrightarrow> round_double x = int (round_nat (nat x))"
  by (cases "x = 0") (simp_all add: round_double_def round_nat_zero)

lemma round_double_neg: "x < 0 \<Longrightarrow> round_double x = - int (round_nat (nat (- x)))"
  by (simp add: round_double_def)

lemma abs_round_double: "nat \<bar>round_double x\<bar> = round_nat (nat \<bar>x\<bar>)"
  by (cases "0 \<le> x") (simp_all add: round_double_nonneg round_double_neg)

lemma is_double_iff: "is_double x = (2 ^ expo (nat \<bar>x\<bar>) dvd nat \<bar>x\<bar>)"
proof
  assume "is_double x"
  then have "round_double x = x" by (simp add: is_double_def)
  then have "nat \<bar>x\<bar> = round_nat (nat \<bar>x\<bar>)"
    using abs_round_double [of x] by simp
  then show "2 ^ expo (nat \<bar>x\<bar>) dvd nat \<bar>x\<bar>"
    using round_nat_closed [of "nat \<bar>x\<bar>"] by simp
next
  assume "2 ^ expo (nat \<bar>x\<bar>) dvd nat \<bar>x\<bar>"
  then have "round_nat (nat \<bar>x\<bar>) = nat \<bar>x\<bar>" by (rule round_nat_exact)
  then have "round_double x = sgn x * \<bar>x\<bar>" by (simp add: round_double_def)
  then show "is_double x" by (simp add: is_double_def mult_sgn_abs)
qed



lemma round_double_crosses_no_double:
  assumes d: "is_double d" and le: "d \<le> x"
  shows "d \<le> round_double x"
proof (cases "0 \<le> x")
  case True
  show ?thesis
  proof (cases "0 \<le> d")
    case d0: True
    from d have "2 ^ expo (nat d) dvd nat d" using d0 by (simp add: is_double_iff)
    moreover from le d0 have "nat d \<le> nat x" by simp
    ultimately have "nat d \<le> round_nat (nat x)" by (rule round_nat_lower)
    with True d0 show ?thesis by (simp add: round_double_nonneg)
  next
    case False
    with True show ?thesis by (simp add: round_double_nonneg)
  qed
next
  case False
  with le have dn: "d < 0" and xn: "x < 0" by simp_all
  from d dn have "2 ^ expo (nat (- d)) dvd nat (- d)" by (simp add: is_double_iff)
  moreover from le dn have "nat (- x) \<le> nat (- d)" by simp
  ultimately have "round_nat (nat (- x)) \<le> nat (- d)" by (rule round_nat_upper)
  with dn xn show ?thesis by (simp add: round_double_neg)
qed

lemma expo_le_one: "m \<le> 2 ^ precision \<Longrightarrow> expo m \<le> 1"
  by (rule expo_le) (simp add: precision_def)

text \<open>Every integer of magnitude up to \<open>2^53\<close> is a double, and sums in that range are exact.\<close>

lemma is_double_safe: "\<bar>x\<bar> \<le> 2 ^ 53 \<Longrightarrow> is_double x"
proof -
  assume a: "\<bar>x\<bar> \<le> 2 ^ 53"
  let ?m = "nat \<bar>x\<bar>"
  from a have le: "?m \<le> 2 ^ precision" by (simp add: precision_def)
  show ?thesis
  proof (cases "?m < 2 ^ precision")
    case True
    then have "expo ?m = 0" by (rule expo_small)
    then show ?thesis by (simp add: is_double_iff)
  next
    case False
    with le have eq: "?m = 2 ^ precision" by simp
    from le have "expo ?m \<le> 1" by (rule expo_le_one)
    also have "(1::nat) \<le> precision" by (simp add: precision_def)
    finally have "(2::nat) ^ expo ?m dvd 2 ^ precision" by (rule le_imp_power_dvd)
    then show ?thesis by (simp add: is_double_iff eq [symmetric])
  qed
qed

lemma js_add_exact: "\<bar>a + b\<bar> \<le> 2 ^ 53 \<Longrightarrow> js_add a b = a + b"
  using is_double_safe [of "a + b"] by (simp add: js_add_def is_double_def)

lemma js_add_one_safe: "- (2 ^ 53) \<le> n \<Longrightarrow> n < 2 ^ 53 \<Longrightarrow> js_add n 1 = n + 1"
  by (rule js_add_exact) simp


lemma js_add_one_positive: "0 \<le> n \<Longrightarrow> 1 \<le> js_add n 1"
  unfolding js_add_def
  by (rule round_double_crosses_no_double) (simp_all add: is_double_safe)

text \<open>At \<open>2^53\<close> adding 1 changes nothing.\<close>

lemma expo_2_53_1: "expo 9007199254740993 = 1"
proof -
  have "expo 9007199254740993 = Suc (expo 4503599627370496)"
    by (subst expo.simps) (simp add: precision_def)
  also have "expo 4503599627370496 = 0"
    by (rule expo_small) (simp add: precision_def)
  finally show ?thesis by simp
qed

lemma js_add_2_53: "js_add 9007199254740992 1 = 9007199254740992"
  by (simp add: js_add_def round_double_def round_nat_def expo_2_53_1)

subsection \<open>The paths of updateVisitCount\<close>

lemma updateVisitCount_hit:
  assumes "cache_get (cache w) ''visitCount'' (t_get e) = Some v" and "v \<noteq> 0"
  shows "updateVisitCount e w =
    \<lparr>result = Inr v, world_after = w, effects = [CacheGet ''visitCount'']\<rparr>"
  using assms by (simp add: updateVisitCount_def)

lemma updateVisitCount_findOne_fails:
  assumes "falsy (cache_get (cache w) ''visitCount'' (t_get e))"
    and "findOne_fault e = Some err"
  shows "updateVisitCount e w =
    \<lparr>result = Inl err, world_after = w, effects = [CacheGet ''visitCount'', FindOne]\<rparr>"
  using assms by (simp add: updateVisitCount_def findOne_def)

lemma updateVisitCount_save_fails:
  assumes "falsy (cache_get (cache w) ''visitCount'' (t_get e))"
    and "findOne_fault e = None" and "save_fault e = Some err"
  shows "updateVisitCount e w =
    \<lparr>result = Inl err, world_after = w,
     effects = [CacheGet ''visitCount'', FindOne,
                Save (case store w of [] \<Rightarrow> 1 | d # _ \<Rightarrow> js_add (count d) 1)]\<rparr>"
  using assms
  by (simp add: updateVisitCount_def findOne_def save_def Let_def split: list.splits)

lemma updateVisitCount_miss_empty:
  assumes "falsy (cache_get (cache w) ''visitCount'' (t_get e))"
    and "findOne_fault e = None" and "save_fault e = None" and "store w = []"
  shows "updateVisitCount e w =
    \<lparr>result = Inr 1,
     world_after = \<lparr>store = [\<lparr>count = 1\<rparr>],
                    cache = cache_set (cache w) ''visitCount'' 1 (t_set e)\<rparr>,
     effects = [CacheGet ''visitCount'', FindOne, Save 1, CacheSet ''visitCount'' 1]\<rparr>"
  using assms by (simp add: updateVisitCount_def findOne_def save_def Let_def)

lemma updateVisitCount_miss_record:
  assumes "falsy (cache_get (cache w) ''visitCount'' (t_get e))"
    and "findOne_fault e = None" and "save_fault e = None" and "store w = d # rest"
  shows "updateVisitCount e w =
    \<lparr>result = Inr (js_add (count d) 1),
     world_after = \<lparr>store = d\<lparr>count := js_add (count d) 1\<rparr> # rest,
                    cache = cache_set (cache w) ''visitCount'' (js_add (count d) 1) (t_set e)\<rparr>,
     effects = [CacheGet ''visitCount'', FindOne, Save (js_add (count d) 1),
                CacheSet ''visitCount'' (js_add (count d) 1)]\<rparr>"
  using assms by (simp add: updateVisitCount_def findOne_def save_def Let_def)

lemma cache_get_absent_or_expired:
  "(cache_get c key now = None) =
   (c key = None \<or> (\<exists>en. c key = Some en \<and> expires_at en < now))"
  by (auto simp: cache_get_def split: option.splits)

subsection \<open>Cache hit\<close>

text \<open>
  C1. Whenever the cache holds a live, non-zero value \<open>v\<close> under \<open>"visitCount"\<close>,
  \<open>updateVisitCount\<close> returns exactly \<open>v\<close>, leaves the store and the cache as they
  were, and the only call it issues is the cache read: no \<open>findOne\<close>, no \<open>save\<close>,
  no increment, no cache write. This holds whatever the store would have answered.
\<close>

theorem cache_hit_short_circuit:
  assumes "cache_get (cache w) ''visitCount'' (t_get e) = Some v" and "v \<noteq> 0"
  shows "result (updateVisitCount e w) = Inr v
       \<and> world_after (updateVisitCount e w) = w
       \<and> effects (updateVisitCount e w) = [CacheGet ''visitCount'']"
  using assms by (simp add: updateVisitCount_hit)

theorem cache_hit_short_circuit_witness:
  "cache_get (cached 7 5000) ''visitCount'' (t_get store_down) = Some 7
   \<and> (7::int) \<noteq> 0
   \<and> result (updateVisitCount store_down \<lparr>store = [\<lparr>count = 41\<rparr>], cache = cached 7 5000\<rparr>)
       = Inr 7
   \<and> world_after (updateVisitCount store_down \<lparr>store = [\<lparr>count = 41\<rparr>], cache = cached 7 5000\<rparr>)
       = \<lparr>store = [\<lparr>count = 41\<rparr>], cache = cached 7 5000\<rparr>
   \<and> effects (updateVisitCount store_down \<lparr>store = [\<lparr>count = 41\<rparr>], cache = cached 7 5000\<rparr>)
       = [CacheGet ''visitCount'']"
proof -
  have h: "cache_get (cache \<lparr>store = [\<lparr>count = 41\<rparr>], cache = cached 7 5000\<rparr>)
             ''visitCount'' (t_get store_down) = Some 7"
    by (simp add: cache_get_def cached_def store_down_def)
  have n: "(7::int) \<noteq> 0" by simp
  show ?thesis
    using h cache_hit_short_circuit [OF h n] by simp
qed

subsection \<open>Cache miss\<close>

text \<open>
  C2, as the code has it. When the store's record has \<open>count = n\<close> with
  \<open>-2^53 \<le> n < 2^53\<close>, the cache entry is absent or expired and the store answers,
  \<open>updateVisitCount\<close> persists \<open>n + 1\<close> in that record, writes \<open>n + 1\<close> into the cache
  (for 600 seconds from the write) and returns \<open>n + 1\<close>; a read of the cache within that
  time gives the count the store holds.
\<close>

theorem cache_miss_increments_record:
  assumes "store w = d # rest"
    and "- (2 ^ 53) \<le> count d" and "count d < 2 ^ 53"
    and "cache w ''visitCount'' = None
         \<or> (\<exists>en. cache w ''visitCount'' = Some en \<and> expires_at en < t_get e)"
    and "findOne_fault e = None" and "save_fault e = None"
  shows "result (updateVisitCount e w) = Inr (count d + 1)
       \<and> store (world_after (updateVisitCount e w)) = d\<lparr>count := count d + 1\<rparr> # rest
       \<and> cache (world_after (updateVisitCount e w)) ''visitCount''
           = Some \<lparr>cached_value = count d + 1, expires_at = t_set e + 600000\<rparr>
       \<and> (\<forall>now. now \<le> t_set e + 600000 \<longrightarrow>
            cache_get (cache (world_after (updateVisitCount e w))) ''visitCount'' now
              = Some (count (hd (store (world_after (updateVisitCount e w))))))
       \<and> effects (updateVisitCount e w)
           = [CacheGet ''visitCount'', FindOne, Save (count d + 1),
              CacheSet ''visitCount'' (count d + 1)]"
proof -
  from assms(4) have "cache_get (cache w) ''visitCount'' (t_get e) = None"
    by (simp add: cache_get_absent_or_expired)
  then have miss: "falsy (cache_get (cache w) ''visitCount'' (t_get e))"
    by simp
  from assms(2) assms(3) have inc: "js_add (count d) 1 = count d + 1"
    by (rule js_add_one_safe)
  show ?thesis
    by (simp add: updateVisitCount_miss_record [OF miss assms(5) assms(6) assms(1)]
          inc cache_set_def cache_get_def stdTTL_def)
qed

theorem cache_miss_increments_record_witness:
  "result (updateVisitCount store_up \<lparr>store = [\<lparr>count = 41\<rparr>], cache = cached 41 999\<rparr>) = Inr 42
   \<and> store (world_after (updateVisitCount store_up \<lparr>store = [\<lparr>count = 41\<rparr>], cache = cached 41 999\<rparr>))
       = [\<lparr>count = 42\<rparr>]
   \<and> cache_get (cache (world_after
         (updateVisitCount store_up \<lparr>store = [\<lparr>count = 41\<rparr>], cache = cached 41 999\<rparr>)))
         ''visitCount'' 601005 = Some 42"
proof -
  let ?w = "\<lparr>store = [\<lparr>count = 41\<rparr>], cache = cached 41 999\<rparr>"
  have s: "store ?w = \<lparr>count = 41\<rparr> # []" by simp
  have lo: "- (2 ^ 53) \<le> count \<lparr>count = 41\<rparr>" and hi: "count \<lparr>count = 41\<rparr> < 2 ^ 53"
    by simp_all
  have c: "cache ?w ''visitCount'' = None
           \<or> (\<exists>en. cache ?w ''visitCount'' = Some en \<and> expires_at en < t_get store_up)"
    by (simp add: cached_def store_up_def)
  have f: "findOne_fault store_up = None" and g: "save_fault store_up = None"
    by (simp_all add: store_up_def)
  have t: "t_set store_up = 1005" by (simp add: store_up_def)
  show ?thesis
    using cache_miss_increments_record [OF s lo hi c f g] t by simp
qed

text \<open>
  Without the bound the claim fails: a record with \<open>count = 2^53 = 9007199254740992\<close> is a
  non-negative integer count, and over it the call saves, caches and returns
  \<open>9007199254740992\<close> again, not \<open>n + 1\<close>.
\<close>

theorem cache_miss_at_2_53_adds_nothing:
  "(9007199254740992::int) = 2 ^ 53
   \<and> result (updateVisitCount store_up
        \<lparr>store = [\<lparr>count = 9007199254740992\<rparr>], cache = Map.empty\<rparr>)
       = Inr 9007199254740992
   \<and> store (world_after (updateVisitCount store_up
        \<lparr>store = [\<lparr>count = 9007199254740992\<rparr>], cache = Map.empty\<rparr>))
       = [\<lparr>count = 9007199254740992\<rparr>]
   \<and> cache_get (cache (world_after (updateVisitCount store_up
        \<lparr>store = [\<lparr>count = 9007199254740992\<rparr>], cache = Map.empty\<rparr>))) ''visitCount'' 2000
       = Some 9007199254740992
   \<and> (9007199254740992::int) \<noteq> 9007199254740992 + 1"
  by (simp add: updateVisitCount_def cache_get_def cache_set_def findOne_def save_def
        store_up_def stdTTL_def js_add_2_53)

text \<open>
  C3. With an empty store and an empty cache, and the store answering,
  \<open>updateVisitCount\<close> creates the record with \<open>count = 1\<close>, writes \<open>1\<close> into the
  cache and returns \<open>1\<close>.
\<close>

theorem cache_miss_creates_first_record:
  assumes "findOne_fault e = None" and "save_fault e = None"
  shows "updateVisitCount e \<lparr>store = [], cache = Map.empty\<rparr> =
    \<lparr>result = Inr 1,
     world_after =
       \<lparr>store = [\<lparr>count = 1\<rparr>],
        cache = [''visitCount'' \<mapsto> \<lparr>cached_value = 1, expires_at = t_set e + 600000\<rparr>]\<rparr>,
     effects = [CacheGet ''visitCount'', FindOne, Save 1, CacheSet ''visitCount'' 1]\<rparr>"
proof -
  have miss: "falsy (cache_get (cache \<lparr>store = [], cache = Map.empty\<rparr>) ''visitCount'' (t_get e))"
    by (simp add: cache_get_def)
  show ?thesis
    using updateVisitCount_miss_empty [OF miss assms]
    by (simp add: cache_set_def stdTTL_def)
qed

theorem cache_miss_creates_first_record_witness:
  "findOne_fault store_up = None \<and> save_fault store_up = None
   \<and> updateVisitCount store_up \<lparr>store = [], cache = Map.empty\<rparr> =
     \<lparr>result = Inr 1,
      world_after =
        \<lparr>store = [\<lparr>count = 1\<rparr>],
         cache = [''visitCount'' \<mapsto> \<lparr>cached_value = 1, expires_at = 601005\<rparr>]\<rparr>,
      effects = [CacheGet ''visitCount'', FindOne, Save 1, CacheSet ''visitCount'' 1]\<rparr>"
proof -
  have f: "findOne_fault store_up = None" and g: "save_fault store_up = None"
    by (simp_all add: store_up_def)
  have t: "t_set store_up = 1005" by (simp add: store_up_def)
  show ?thesis
    using f g cache_miss_creates_first_record [OF f g] t by simp
qed



subsection \<open>Store failures\<close>

text \<open>
  C4. On the miss path, when \<open>findOne\<close> is rejected, or \<open>findOne\<close> answers and
  \<open>save\<close> is rejected, \<open>updateVisitCount\<close> is rejected with that error, the world
  (the cache in particular) is exactly as before and no cache write was issued; the
  request to \<open>/api/visit\<close> then receives exactly one response, with status 500 and the
  body \<open>{error: <message>}\<close>, the message being the error's own or, when that is empty,
  \<open>"Internal Server Error"\<close>.
\<close>

theorem store_failure_propagates:
  assumes "falsy (cache_get (cache w) ''visitCount'' (t_get e))"
    and "findOne_fault e = Some err \<or> (findOne_fault e = None \<and> save_fault e = Some err)"
  shows "result (updateVisitCount e w) = Inl err
       \<and> world_after (updateVisitCount e w) = w
       \<and> (\<forall>k n. CacheSet k n \<notin> set (effects (updateVisitCount e w)))
       \<and> api_visit e w =
           ([\<lparr>status = 500,
              body = JObject [(''error'',
                       JString (if message err = [] then ''Internal Server Error''
                                else message err))]\<rparr>], w)"
proof -
  from assms(2) have "findOne_fault e = Some err
      \<or> (findOne_fault e = None \<and> save_fault e = Some err)" .
  then have "updateVisitCount e w =
      \<lparr>result = Inl err, world_after = w, effects = [CacheGet ''visitCount'', FindOne]\<rparr>
    \<or> updateVisitCount e w =
      \<lparr>result = Inl err, world_after = w,
       effects = [CacheGet ''visitCount'', FindOne,
                  Save (case store w of [] \<Rightarrow> 1 | d # _ \<Rightarrow> js_add (count d) 1)]\<rparr>"
  proof (elim disjE conjE)
    assume "findOne_fault e = Some err"
    with assms(1) show ?thesis by (simp add: updateVisitCount_findOne_fails)
  next
    assume "findOne_fault e = None" and "save_fault e = Some err"
    with assms(1) show ?thesis by (simp add: updateVisitCount_save_fails)
  qed
  then show ?thesis
    by (auto simp: api_visit_def visit_route_def asyncHandler_def error_middleware_def)
qed

theorem store_failure_propagates_witness:
  "result (updateVisitCount store_down \<lparr>store = [\<lparr>count = 41\<rparr>], cache = cached 41 999\<rparr>)
     = Inl (Error ''connection refused'')
   \<and> api_visit store_down \<lparr>store = [\<lparr>count = 41\<rparr>], cache = cached 41 999\<rparr>
     = ([\<lparr>status = 500, body = JObject [(''error'', JString ''connection refused'')]\<rparr>],
        \<lparr>store = [\<lparr>count = 41\<rparr>], cache = cached 41 999\<rparr>)
   \<and> api_visit write_down \<lparr>store = [\<lparr>count = 41\<rparr>], cache = cached 0 5000\<rparr>
     = ([\<lparr>status = 500, body = JObject [(''error'', JString ''Internal Server Error'')]\<rparr>],
        \<lparr>store = [\<lparr>count = 41\<rparr>], cache = cached 0 5000\<rparr>)"
proof -
  let ?w = "\<lparr>store = [\<lparr>count = 41\<rparr>], cache = cached 41 999\<rparr>"
  let ?z = "\<lparr>store = [\<lparr>count = 41\<rparr>], cache = cached 0 5000\<rparr>"
  have m1: "falsy (cache_get (cache ?w) ''visitCount'' (t_get store_down))"
    by (simp add: cache_get_def cached_def store_down_def)
  have f1: "findOne_fault store_down = Some (Error ''connection refused'')
            \<or> (findOne_fault store_down = None
                \<and> save_fault store_down = Some (Error ''connection refused''))"
    by (simp add: store_down_def)
  have m2: "falsy (cache_get (cache ?z) ''visitCount'' (t_get write_down))"
    by (simp add: cache_get_def cached_def write_down_def)
  have f2: "findOne_fault write_down = Some (Error [])
            \<or> (findOne_fault write_down = None \<and> save_fault write_down = Some (Error []))"
    by (simp add: write_down_def)
  show ?thesis
    using store_failure_propagates [OF m1 f1] store_failure_propagates [OF m2 f2]
    by simp
qed

subsection \<open>A cached zero\<close>

text \<open>
  C5. With \<open>0\<close> cached under \<open>"visitCount"\<close> (live or expired) the call does what it does
  with no entry, the miss path, and never answers from the cache:
  it calls \<open>findOne\<close>; if that is rejected, or \<open>save\<close> is, the call is rejected and the
  world is as before; otherwise it creates the record with count 1 when there is none, or
  adds 1 to the count of the record it found, saves it, writes the new count over the
  cached \<open>0\<close> and returns it. Over non-negative counts the value returned is not \<open>0\<close>. In
  every case the result, the calls issued and the store are those of the same call on the
  cache without the entry, and so is the cache when the call succeeds.
\<close>

theorem cached_zero_is_a_miss:
  assumes "cache w ''visitCount'' = Some en" and "cached_value en = 0"
  shows "(\<forall>err. findOne_fault e = Some err \<longrightarrow>
            updateVisitCount e w =
              \<lparr>result = Inl err, world_after = w,
               effects = [CacheGet ''visitCount'', FindOne]\<rparr>)
       \<and> (\<forall>err. findOne_fault e = None \<and> save_fault e = Some err \<longrightarrow>
            result (updateVisitCount e w) = Inl err
            \<and> world_after (updateVisitCount e w) = w
            \<and> take 2 (effects (updateVisitCount e w)) = [CacheGet ''visitCount'', FindOne])
       \<and> (findOne_fault e = None \<and> save_fault e = None \<and> store w = [] \<longrightarrow>
            updateVisitCount e w =
              \<lparr>result = Inr 1,
               world_after =
                 \<lparr>store = [\<lparr>count = 1\<rparr>],
                  cache = (cache w)(''visitCount'' \<mapsto>
                            \<lparr>cached_value = 1, expires_at = t_set e + 600000\<rparr>)\<rparr>,
               effects = [CacheGet ''visitCount'', FindOne, Save 1,
                          CacheSet ''visitCount'' 1]\<rparr>)
       \<and> (\<forall>d rest. findOne_fault e = None \<and> save_fault e = None \<and> store w = d # rest \<longrightarrow>
            updateVisitCount e w =
              \<lparr>result = Inr (js_add (count d) 1),
               world_after =
                 \<lparr>store = d\<lparr>count := js_add (count d) 1\<rparr> # rest,
                  cache = (cache w)(''visitCount'' \<mapsto>
                            \<lparr>cached_value = js_add (count d) 1,
                             expires_at = t_set e + 600000\<rparr>)\<rparr>,
               effects = [CacheGet ''visitCount'', FindOne, Save (js_add (count d) 1),
                          CacheSet ''visitCount'' (js_add (count d) 1)]\<rparr>)
       \<and> (store_valid w \<longrightarrow> result (updateVisitCount e w) \<noteq> Inr 0)
       \<and> effects (updateVisitCount e w) \<noteq> [CacheGet ''visitCount'']
       \<and> result (updateVisitCount e w)
           = result (updateVisitCount e (w\<lparr>cache := (cache w)(''visitCount'' := None)\<rparr>))
       \<and> effects (updateVisitCount e w)
           = effects (updateVisitCount e (w\<lparr>cache := (cache w)(''visitCount'' := None)\<rparr>))
       \<and> store (world_after (updateVisitCount e w))
           = store (world_after
               (updateVisitCount e (w\<lparr>cache := (cache w)(''visitCount'' := None)\<rparr>)))
       \<and> (\<forall>n. result (updateVisitCount e w) = Inr n \<longrightarrow>
            cache (world_after (updateVisitCount e w))
              = cache (world_after
                  (updateVisitCount e (w\<lparr>cache := (cache w)(''visitCount'' := None)\<rparr>))))"
proof -
  from assms have miss: "falsy (cache_get (cache w) ''visitCount'' (t_get e))"
    by (simp add: cache_get_def)
  have a: "\<forall>err. findOne_fault e = Some err \<longrightarrow>
            updateVisitCount e w =
              \<lparr>result = Inl err, world_after = w,
               effects = [CacheGet ''visitCount'', FindOne]\<rparr>"
    using miss by (simp add: updateVisitCount_findOne_fails)
  have b: "\<forall>err. findOne_fault e = None \<and> save_fault e = Some err \<longrightarrow>
            result (updateVisitCount e w) = Inl err
            \<and> world_after (updateVisitCount e w) = w
            \<and> take 2 (effects (updateVisitCount e w)) = [CacheGet ''visitCount'', FindOne]"
    using miss by (simp add: updateVisitCount_save_fails)
  have c: "findOne_fault e = None \<and> save_fault e = None \<and> store w = [] \<longrightarrow>
            updateVisitCount e w =
              \<lparr>result = Inr 1,
               world_after =
                 \<lparr>store = [\<lparr>count = 1\<rparr>],
                  cache = (cache w)(''visitCount'' \<mapsto>
                            \<lparr>cached_value = 1, expires_at = t_set e + 600000\<rparr>)\<rparr>,
               effects = [CacheGet ''visitCount'', FindOne, Save 1,
                          CacheSet ''visitCount'' 1]\<rparr>"
    using miss by (simp add: updateVisitCount_miss_empty cache_set_def stdTTL_def)
  have d: "\<forall>d rest. findOne_fault e = None \<and> save_fault e = None \<and> store w = d # rest \<longrightarrow>
            updateVisitCount e w =
              \<lparr>result = Inr (js_add (count d) 1),
               world_after =
                 \<lparr>store = d\<lparr>count := js_add (count d) 1\<rparr> # rest,
                  cache = (cache w)(''visitCount'' \<mapsto>
                            \<lparr>cached_value = js_add (count d) 1,
                             expires_at = t_set e + 600000\<rparr>)\<rparr>,
               effects = [CacheGet ''visitCount'', FindOne, Save (js_add (count d) 1),
                          CacheSet ''visitCount'' (js_add (count d) 1)]\<rparr>"
    using miss by (simp add: updateVisitCount_miss_record cache_set_def stdTTL_def)
  have f: "store_valid w \<longrightarrow> result (updateVisitCount e w) \<noteq> Inr 0"
  proof
    assume v: "store_valid w"
    show "result (updateVisitCount e w) \<noteq> Inr 0"
    proof (cases "findOne_fault e")
      case (Some err)
      with a show ?thesis by simp
    next
      case None
      show ?thesis
      proof (cases "save_fault e")
        case (Some err)
        with None b show ?thesis by simp
      next
        case ok: None
        show ?thesis
        proof (cases "store w")
          case Nil
          with None ok c show ?thesis by simp
        next
          case (Cons x rest)
          with v have "0 \<le> count x" by (simp add: store_valid_def)
          then have "1 \<le> js_add (count x) 1" by (rule js_add_one_positive)
          with None ok Cons d show ?thesis by simp
        qed
      qed
    qed
  qed
  have g: "effects (updateVisitCount e w) \<noteq> [CacheGet ''visitCount'']"
    using miss
    by (auto simp: updateVisitCount_def findOne_def save_def Let_def
          split: option.splits list.splits sum.splits)
  have h: "result (updateVisitCount e w)
           = result (updateVisitCount e (w\<lparr>cache := (cache w)(''visitCount'' := None)\<rparr>))
       \<and> effects (updateVisitCount e w)
           = effects (updateVisitCount e (w\<lparr>cache := (cache w)(''visitCount'' := None)\<rparr>))
       \<and> store (world_after (updateVisitCount e w))
           = store (world_after
               (updateVisitCount e (w\<lparr>cache := (cache w)(''visitCount'' := None)\<rparr>)))
       \<and> (\<forall>n. result (updateVisitCount e w) = Inr n \<longrightarrow>
            cache (world_after (updateVisitCount e w))
              = cache (world_after
                  (updateVisitCount e (w\<lparr>cache := (cache w)(''visitCount'' := None)\<rparr>))))"
    using assms
    by (auto simp: updateVisitCount_def cache_get_def cache_set_def findOne_def save_def
          Let_def split: option.splits list.splits sum.splits)
  from a b c d f g h show ?thesis by blast
qed

theorem cached_zero_is_a_miss_witness:
  "updateVisitCount store_up \<lparr>store = [\<lparr>count = 41\<rparr>], cache = cached 0 5000\<rparr> =
     \<lparr>result = Inr 42,
      world_after = \<lparr>store = [\<lparr>count = 42\<rparr>], cache = cached 42 601005\<rparr>,
      effects = [CacheGet ''visitCount'', FindOne, Save 42, CacheSet ''visitCount'' 42]\<rparr>"
proof -
  let ?w = "\<lparr>store = [\<lparr>count = 41\<rparr>], cache = cached 0 5000\<rparr>"
  have c: "cache ?w ''visitCount'' = Some \<lparr>cached_value = 0, expires_at = 5000\<rparr>"
    by (simp add: cached_def)
  have z: "cached_value \<lparr>cached_value = 0, expires_at = 5000\<rparr> = 0"
    by simp
  have up: "findOne_fault store_up = None \<and> save_fault store_up = None
            \<and> store ?w = \<lparr>count = 41\<rparr> # []"
    by (simp add: store_up_def)
  have inc: "js_add 41 1 = 42"
    using js_add_one_safe [of 41] by simp
  have t: "t_set store_up = 1005" by (simp add: store_up_def)
  from cached_zero_is_a_miss [OF c z, of store_up]
  have "\<forall>d rest. findOne_fault store_up = None \<and> save_fault store_up = None
            \<and> store ?w = d # rest \<longrightarrow>
            updateVisitCount store_up ?w =
              \<lparr>result = Inr (js_add (count d) 1),
               world_after =
                 \<lparr>store = d\<lparr>count := js_add (count d) 1\<rparr> # rest,
                  cache = (cache ?w)(''visitCount'' \<mapsto>
                            \<lparr>cached_value = js_add (count d) 1,
                             expires_at = t_set store_up + 600000\<rparr>)\<rparr>,
               effects = [CacheGet ''visitCount'', FindOne, Save (js_add (count d) 1),
                          CacheSet ''visitCount'' (js_add (count d) 1)]\<rparr>"
    by (elim conjE)
  from this [rule_format, OF up] show ?thesis
    by (simp add: inc t cached_def)
qed

subsection \<open>Startup\<close>

lemma initializeDatabase_record_present:
  "store w \<noteq> [] \<Longrightarrow> world_after (initializeDatabase e w) = w"
  by (simp add: initializeDatabase_def findOne_def split: option.splits list.splits)

lemma initializeDatabase_creates:
  assumes "store w = []" and "findOne_fault e = None" and "create_fault e = None"
  shows "world_after (initializeDatabase e w) = w\<lparr>store := [\<lparr>count = 0\<rparr>]\<rparr>"
  using assms by (simp add: initializeDatabase_def findOne_def create_def)


lemma initializeDatabase_cache:
  "cache (world_after (initializeDatabase e w)) = cache w"
  by (simp add: initializeDatabase_def findOne_def create_def
        split: option.splits list.splits)

text \<open>
  C6. \<open>initializeDatabase\<close> changes nothing when a record exists (whatever the store
  answers); when none exists and the store answers, it creates exactly one record, with
  \<open>count = 0\<close>; after a run during which the store answered, a second run changes
  nothing. It never touches the cache.
\<close>

theorem initializeDatabase_idempotent:
  "(store w \<noteq> [] \<longrightarrow> world_after (initializeDatabase e w) = w)
   \<and> (store w = [] \<and> findOne_fault e = None \<and> create_fault e = None \<longrightarrow>
        store (world_after (initializeDatabase e w)) = [\<lparr>count = 0\<rparr>])
   \<and> (findOne_fault e = None \<and> create_fault e = None \<longrightarrow>
        world_after (initializeDatabase e' (world_after (initializeDatabase e w)))
          = world_after (initializeDatabase e w))
   \<and> cache (world_after (initializeDatabase e w)) = cache w"
proof (intro conjI impI)
  assume "store w \<noteq> []"
  then show "world_after (initializeDatabase e w) = w"
    by (rule initializeDatabase_record_present)
next
  assume "store w = [] \<and> findOne_fault e = None \<and> create_fault e = None"
  then show "store (world_after (initializeDatabase e w)) = [\<lparr>count = 0\<rparr>]"
    by (simp add: initializeDatabase_creates)
next
  assume ok: "findOne_fault e = None \<and> create_fault e = None"
  have "store (world_after (initializeDatabase e w)) \<noteq> []"
  proof (cases "store w = []")
    case True
    with ok show ?thesis by (simp add: initializeDatabase_creates)
  next
    case False
    then show ?thesis by (simp add: initializeDatabase_record_present)
  qed
  then show "world_after (initializeDatabase e' (world_after (initializeDatabase e w)))
               = world_after (initializeDatabase e w)"
    by (rule initializeDatabase_record_present)
next
  show "cache (world_after (initializeDatabase e w)) = cache w"
    by (rule initializeDatabase_cache)
qed

theorem initializeDatabase_idempotent_witness:
  "world_after (initializeDatabase store_up \<lparr>store = [\<lparr>count = 41\<rparr>], cache = Map.empty\<rparr>)
     = \<lparr>store = [\<lparr>count = 41\<rparr>], cache = Map.empty\<rparr>
   \<and> store (world_after (initializeDatabase store_up \<lparr>store = [], cache = Map.empty\<rparr>))
     = [\<lparr>count = 0\<rparr>]
   \<and> world_after (initializeDatabase store_up
        (world_after (initializeDatabase store_up \<lparr>store = [], cache = Map.empty\<rparr>)))
     = world_after (initializeDatabase store_up \<lparr>store = [], cache = Map.empty\<rparr>)"
proof -
  have f: "findOne_fault store_up = None" and g: "create_fault store_up = None"
    by (simp_all add: store_up_def)
  show ?thesis
    using initializeDatabase_idempotent
            [of "\<lparr>store = [\<lparr>count = 41\<rparr>], cache = Map.empty\<rparr>" store_up store_up]
          initializeDatabase_idempotent
            [of "\<lparr>store = [], cache = Map.empty\<rparr>" store_up store_up]
          f g
    by simp
qed

subsection \<open>Readiness\<close>

text \<open>
  C7. For every connection state, \<open>GET /readiness\<close> answers \<open>200 {status: "Ready"}\<close>
  exactly when the state is connected (\<open>readyState\<close> 1) and \<open>500 {status: "Not Ready"}\<close>
  exactly when it is not; the same holds for every number \<open>readyState\<close> may hold.
\<close>

theorem readiness_iff_connected:
  "(readiness (readyState c)
      = \<lparr>status = 200, body = JObject [(''status'', JString ''Ready'')]\<rparr>) = (c = Connected)
   \<and> (readiness (readyState c)
      = \<lparr>status = 500, body = JObject [(''status'', JString ''Not Ready'')]\<rparr>) = (c \<noteq> Connected)
   \<and> (readiness n
      = \<lparr>status = 200, body = JObject [(''status'', JString ''Ready'')]\<rparr>) = (n = 1)
   \<and> (readiness n
      = \<lparr>status = 500, body = JObject [(''status'', JString ''Not Ready'')]\<rparr>) = (n \<noteq> 1)"
  by (cases c) (simp_all add: readiness_def)



subsection \<open>What one operation does to the store\<close>







subsection \<open>Tasks and whole calls\<close>

text \<open>
  A task resumed to its end with no other call in between is the whole call: the same
  result and the same world.
\<close>

lemma update_task_alone:
  "interleave [0, 0, 0] ([VisitCall e UpdateStart], w) =
     ([VisitCall e (UpdateDone (result (updateVisitCount e w)))],
      world_after (updateVisitCount e w))"
  by (simp add: updateVisitCount_def Let_def
        split: option.splits sum.splits)

lemma init_task_alone:
  "interleave [0, 0] ([InitCall e InitStart], w) =
     ([InitCall e InitDone], world_after (initializeDatabase e w))"
  by (simp add: initializeDatabase_def split: option.splits sum.splits)





subsection \<open>The singleton record\<close>




subsection \<open>The persisted count never goes down\<close>



subsection \<open>Positive results\<close>
















end
